theory Spec2Isabelle
  imports Main
begin

section \<open>Python values, errors and dictionaries\<close>

text \<open>
  The values a dynamic attribute can hold are the JSON values of the serialized blob.
  \<open>PNone\<close> is Python's \<open>None\<close>.
\<close>

datatype pyval = PNone | PBool bool | PInt int | PStr string | PDict "(string \<times> pyval) list"

datatype error =
  KeyError | ValidationError | DoesNotExist | IntegrityError | ValueError | AttributeError

text \<open>
  A Python \<open>dict\<close> with string keys is an association list whose keys are pairwise
  distinct; the list order is the iteration order.
\<close>

type_synonym 'v pydict = "(string \<times> 'v) list"

definition dict_keys :: "'v pydict \<Rightarrow> string list" where
  "dict_keys d = map fst d"

definition dict_contains :: "string \<Rightarrow> 'v pydict \<Rightarrow> bool" where
  "dict_contains k d = (k \<in> set (dict_keys d))"

text \<open>\<open>d[k]\<close>: raises \<open>KeyError\<close> when the key is missing.\<close>

definition dict_getitem :: "'v pydict \<Rightarrow> string \<Rightarrow> error + 'v" where
  "dict_getitem d k = (case map_of d k of None \<Rightarrow> Inl KeyError | Some v \<Rightarrow> Inr v)"

text \<open>\<open>d[k] = v\<close>: overwrites in place, or appends a new key.\<close>

fun dict_setitem :: "string \<Rightarrow> 'v \<Rightarrow> 'v pydict \<Rightarrow> 'v pydict" where
  "dict_setitem k v [] = [(k, v)]"
| "dict_setitem k v ((k', v') # d) =
     (if k = k' then (k, v) # d else (k', v') # dict_setitem k v d)"

text \<open>\<open>del d[k]\<close>: raises \<open>KeyError\<close> when the key is missing.\<close>

fun dict_delitem :: "string \<Rightarrow> 'v pydict \<Rightarrow> error + 'v pydict" where
  "dict_delitem k [] = Inl KeyError"
| "dict_delitem k ((k', v') # d) =
     (if k = k' then Inr d
      else (case dict_delitem k d of Inl e \<Rightarrow> Inl e | Inr d' \<Rightarrow> Inr ((k', v') # d')))"

section \<open>Schema fields and dynamic entities\<close>

text \<open>
  A row of \<open>DynamicSchemaField\<close>. \<open>pk\<close> is the primary key column \<open>id\<close> (\<open>None\<close> before the first
  save), \<open>schema_id\<close> the foreign key to the owning \<open>DynamicSchema\<close>; \<open>verbose_name\<close> is
  nullable.
\<close>

record DynamicSchemaField =
  pk :: "int option"
  schema_id :: int
  name :: string
  verbose_name :: "string option"
  field_type :: string
  required :: bool

text \<open>
  A \<open>DynamicModel\<close> instance: \<open>extra_fields\<close> is the attribute store, \<open>schema_fields\<close>
  the rows of \<open>self._schema.fields.all()\<close> (prefetched when the schema is resolved),
  \<open>meta_fields\<close> the names in \<open>self._meta.fields\<close> (the fixed columns of the concrete
  model, \<open>extra_fields\<close> among them), and \<open>attrs\<close> the remaining instance attributes.
\<close>

record DynamicModel =
  extra_fields :: "pyval pydict"
  schema_fields :: "DynamicSchemaField list"
  meta_fields :: "string list"
  attrs :: "pyval pydict"

definition get_extra_field_value :: "DynamicModel \<Rightarrow> string \<Rightarrow> pyval" where
  "get_extra_field_value self key =
     (if dict_contains key (extra_fields self)
      then (case map_of (extra_fields self) key of Some v \<Rightarrow> v | None \<Rightarrow> PNone)
      else PNone)"

definition get_extra_fields ::
  "DynamicModel \<Rightarrow> (string \<times> string option \<times> string \<times> bool \<times> pyval) list" where
  "get_extra_fields self =
     map (\<lambda>field. (name field, verbose_name field, field_type field, required field,
                   get_extra_field_value self (name field)))
         (schema_fields self)"

definition get_extra_fields_names :: "DynamicModel \<Rightarrow> string list" where
  "get_extra_fields_names self =
     map (\<lambda>(name, verbose_name, field_type, required, value). name) (get_extra_fields self)"

text \<open>The two loops of \<open>_sync_with_schema\<close>.\<close>

fun del_each :: "string list \<Rightarrow> 'v pydict \<Rightarrow> error + 'v pydict" where
  "del_each [] d = Inr d"
| "del_each (el # els) d =
     (case dict_delitem el d of Inl e \<Rightarrow> Inl e | Inr d' \<Rightarrow> del_each els d')"

fun set_each_none :: "string list \<Rightarrow> pyval pydict \<Rightarrow> pyval pydict" where
  "set_each_none [] d = d"
| "set_each_none (el # els) d = set_each_none els (dict_setitem el PNone d)"

definition sync_with_schema :: "DynamicModel \<Rightarrow> error + DynamicModel" where
  "sync_with_schema self =
     (let schema_extra_fields = get_extra_fields_names self;
          clear_field = filter (\<lambda>field_name. field_name \<notin> set schema_extra_fields)
                               (dict_keys (extra_fields self));
          new_field = filter (\<lambda>field_name. \<not> dict_contains field_name (extra_fields self))
                             schema_extra_fields
      in case del_each clear_field (extra_fields self) of
           Inl e \<Rightarrow> Inl e
         | Inr d \<Rightarrow> Inr (self\<lparr>extra_fields := set_each_none new_field d\<rparr>))"


section \<open>Attribute assignment\<close>

text \<open>
  Modelled from the spec: \<open>JSONField\<close> (\<open>dynamicmodel/fields.py\<close>) is not among the
  sources. The spec describes the blob as read and written as a mapping from string key to
  value-or-null, so a mapping assigned to the attribute is stored as it is; a value that is
  not a mapping is outside that type and is read as the empty mapping.
\<close>

fun JSONField_to_python :: "pyval \<Rightarrow> pyval pydict" where
  "JSONField_to_python (PDict d) = d"
| "JSONField_to_python _ = []"

text \<open>
  \<open>super().__setattr__(attr_name, value)\<close>: plain attribute assignment. The attribute
  \<open>extra_fields\<close> is the store itself; every other attribute lands in \<open>attrs\<close>.
\<close>

definition object_setattr :: "DynamicModel \<Rightarrow> string \<Rightarrow> pyval \<Rightarrow> DynamicModel" where
  "object_setattr self attr_name v =
     (if attr_name = ''extra_fields''
      then self\<lparr>extra_fields := JSONField_to_python v\<rparr>
      else self\<lparr>attrs := dict_setitem attr_name v (attrs self)\<rparr>)"

text \<open>
  \<open>DynamicModel.__setattr__\<close>. A constructed instance always has the attribute
  \<open>extra_fields\<close>, so \<open>hasattr(self, 'extra_fields')\<close> holds.
\<close>

definition DynamicModel_setattr :: "DynamicModel \<Rightarrow> string \<Rightarrow> pyval \<Rightarrow> DynamicModel" where
  "DynamicModel_setattr self attr_name v =
     (let self' =
        (if attr_name \<notin> set (meta_fields self) \<and>
            attr_name \<notin> set [''_schema''] \<and>
            attr_name \<in> set (get_extra_fields_names self)
         then self\<lparr>extra_fields := dict_setitem attr_name v (extra_fields self)\<rparr>
         else self)
      in object_setattr self' attr_name v)"

section \<open>Python string methods\<close>

definition ascii_upper :: "char \<Rightarrow> char" where
  "ascii_upper c =
     (let n = (of_char c :: nat) in if 97 \<le> n \<and> n \<le> 122 then char_of (n - 32) else c)"

definition ascii_lower :: "char \<Rightarrow> char" where
  "ascii_lower c =
     (let n = (of_char c :: nat) in if 65 \<le> n \<and> n \<le> 90 then char_of (n + 32) else c)"

text \<open>
  \<open>s.capitalize()\<close> is a built-in of the language and is passed to the form as a function,
  like the translation function. On a string of ASCII characters it returns the string with
  the first character upper-cased and all the others lower-cased, which is
  \<open>ascii_capitalize\<close>; on other characters the method is Unicode-aware, and
  \<open>ascii_capitalize\<close> does not describe it.
\<close>

fun ascii_capitalize :: "string \<Rightarrow> string" where
  "ascii_capitalize [] = []"
| "ascii_capitalize (c # cs) = ascii_upper c # map ascii_lower cs"

text \<open>\<open>s.split(sep)\<close> for a one-character separator, and \<open>sep.join(ws)\<close>.\<close>

fun str_split :: "string \<Rightarrow> char \<Rightarrow> string list" where
  "str_split [] sep = [[]]"
| "str_split (c # cs) sep =
     (if c = sep then [] # str_split cs sep
      else (case str_split cs sep of [] \<Rightarrow> [[c]] | w # ws \<Rightarrow> (c # w) # ws))"

fun str_join :: "string \<Rightarrow> string list \<Rightarrow> string" where
  "str_join sep [] = []"
| "str_join sep [w] = w"
| "str_join sep (w # ws) = w @ sep @ str_join sep ws"

section \<open>The dynamic form\<close>

text \<open>An entry of \<open>self.fields\<close>: the form field class, its widget and its keyword arguments.\<close>

record FormField =
  form_class :: string
  widget :: "string option"
  form_required :: bool
  initial :: pyval
  label :: string

text \<open>
  A \<open>DynamicForm\<close>: \<open>form_errors\<close> is \<open>self.errors\<close> (empty for a form that validated and
  for an unbound form), and \<open>cleaned_data\<close> exists only once a bound form has been
  validated.
\<close>

record DynamicForm =
  form_instance :: DynamicModel
  form_fields :: "FormField pydict"
  form_errors :: "string pydict"
  cleaned_data :: "pyval pydict option"

definition field_mapping :: "(string pydict) pydict" where
  "field_mapping =
     [(''IntegerField'', [(''field'', ''forms.IntegerField'')]),
      (''CharField'', [(''field'', ''forms.CharField'')]),
      (''TextField'', [(''field'', ''forms.CharField''), (''widget'', ''forms.Textarea'')]),
      (''EmailField'', [(''field'', ''forms.EmailField'')]),
      (''BooleanField'', [(''field'', ''forms.BooleanField'')])]"

text \<open>
  The \<open>label\<close> argument. \<open>gettext\<close> is the translation function \<open>_\<close> and
  \<open>capitalize\<close> the string method; an absent or empty \<open>verbose_name\<close> is falsy.
\<close>

definition field_label ::
  "(string \<Rightarrow> string) \<Rightarrow> (string \<Rightarrow> string) \<Rightarrow> string \<Rightarrow> string option \<Rightarrow> string" where
  "field_label gettext capitalize fname vname =
     (case vname of
        None \<Rightarrow> capitalize (str_join '' '' (str_split fname (CHR ''_'')))
      | Some vn \<Rightarrow>
          if vn \<noteq> [] then capitalize (gettext vn)
          else capitalize (str_join '' '' (str_split fname (CHR ''_''))))"

text \<open>The loop of \<open>DynamicForm.__init__\<close> over \<open>self.instance.get_extra_fields()\<close>.\<close>

fun add_extra_fields ::
  "(string \<Rightarrow> string) \<Rightarrow> (string \<Rightarrow> string) \<Rightarrow> DynamicModel \<Rightarrow>
   (string \<times> string option \<times> string \<times> bool \<times> pyval) list \<Rightarrow>
   FormField pydict \<Rightarrow> error + FormField pydict" where
  "add_extra_fields gettext capitalize inst [] fs = Inr fs"
| "add_extra_fields gettext capitalize inst ((fname, vname, ftype, req, v) # rest) fs =
     (case dict_getitem field_mapping ftype of
        Inl e \<Rightarrow> Inl e
      | Inr field_mapping_case \<Rightarrow>
          (case dict_getitem field_mapping_case ''field'' of
             Inl e \<Rightarrow> Inl e
           | Inr cls \<Rightarrow>
               add_extra_fields gettext capitalize inst rest
                 (dict_setitem fname
                    \<lparr>form_class = cls,
                     widget = map_of field_mapping_case ''widget'',
                     form_required = (if ftype = ''BooleanField'' then False else req),
                     initial = get_extra_field_value inst fname,
                     label = field_label gettext capitalize fname vname\<rparr>
                    fs)))"

text \<open>
  \<open>DynamicForm.__init__\<close>, after \<open>ModelForm.__init__\<close> has filled \<open>self.fields\<close> (\<open>form_fields\<close>) with the
  model's own form fields. The instance is a \<open>DynamicModel\<close> by its type, so the
  \<open>isinstance\<close> check passes.
\<close>

definition DynamicForm_init ::
  "(string \<Rightarrow> string) \<Rightarrow> (string \<Rightarrow> string) \<Rightarrow> DynamicForm \<Rightarrow> error + DynamicForm" where
  "DynamicForm_init gettext capitalize self =
     (case add_extra_fields gettext capitalize (form_instance self)
             (get_extra_fields (form_instance self)) (form_fields self) of
        Inl e \<Rightarrow> Inl e
      | Inr fs \<Rightarrow> Inr (self\<lparr>form_fields := fs\<rparr>))"

text \<open>The loop of \<open>DynamicForm.save\<close> over \<open>self.cleaned_data.keys()\<close>.\<close>

fun copy_cleaned ::
  "string list \<Rightarrow> string list \<Rightarrow> pyval pydict \<Rightarrow> pyval pydict \<Rightarrow> error + pyval pydict" where
  "copy_cleaned [] extra_fields_names cleaned acc = Inr acc"
| "copy_cleaned (cleaned_key # ks) extra_fields_names cleaned acc =
     (if cleaned_key \<in> set extra_fields_names
      then (case dict_getitem cleaned cleaned_key of
              Inl e \<Rightarrow> Inl e
            | Inr v \<Rightarrow> copy_cleaned ks extra_fields_names cleaned (dict_setitem cleaned_key v acc))
      else copy_cleaned ks extra_fields_names cleaned acc)"

text \<open>
  \<open>ModelForm.save(commit=False)\<close>: raises \<open>ValueError\<close> when the form has errors.
  Otherwise it hands back \<open>self.instance\<close>; it assigns the model's own editable columns
  only, and \<open>extra_fields\<close> is declared \<open>editable=False\<close>.
\<close>

definition ModelForm_save :: "DynamicForm \<Rightarrow> error + DynamicModel" where
  "ModelForm_save self =
     (if form_errors self \<noteq> [] then Inl ValueError else Inr (form_instance self))"

text \<open>
  \<open>DynamicForm.save\<close>. Reading \<open>self.cleaned_data\<close> on a form that has none raises
  \<open>AttributeError\<close>. The result is the instance \<open>m\<close> that is returned and, with
  \<open>commit\<close>, written to the database.
\<close>

definition DynamicForm_save :: "DynamicForm \<Rightarrow> error + DynamicModel" where
  "DynamicForm_save self =
     (case ModelForm_save self of
        Inl e \<Rightarrow> Inl e
      | Inr m \<Rightarrow>
          (let extra_fields_names =
                 map (\<lambda>(name, verbose_name, field_type, req, v). name)
                     (get_extra_fields (form_instance self))
           in case cleaned_data self of
                None \<Rightarrow> Inl AttributeError
              | Some cleaned \<Rightarrow>
                  (case copy_cleaned (dict_keys cleaned) extra_fields_names cleaned [] of
                     Inl e \<Rightarrow> Inl e
                   | Inr extra_fields' \<Rightarrow>
                       Inr (DynamicModel_setattr m ''extra_fields'' (PDict extra_fields')))))"

section \<open>Schema field rows and their persistence\<close>

text \<open>The table of \<open>DynamicSchemaField\<close> rows, in insertion order.\<close>

type_synonym field_table = "DynamicSchemaField list"

text \<open>\<open>DynamicSchemaField.objects.get(pk=...)\<close>.\<close>

definition objects_get :: "field_table \<Rightarrow> int \<Rightarrow> error + DynamicSchemaField" where
  "objects_get db i =
     (case filter (\<lambda>r. pk r = Some i) db of [] \<Rightarrow> Inl DoesNotExist | r # _ \<Rightarrow> Inr r)"

text \<open>
  The instance \<open>__dict__\<close> of a row. Django keeps a foreign key under its column name
  \<open>schema_id\<close>; there is no entry under the field name \<open>schema\<close>.
\<close>

definition instance_dict :: "DynamicSchemaField \<Rightarrow> pyval pydict" where
  "instance_dict f =
     [(''id'', (case pk f of None \<Rightarrow> PNone | Some i \<Rightarrow> PInt i)),
      (''schema_id'', PInt (schema_id f)),
      (''name'', PStr (name f)),
      (''verbose_name'', (case verbose_name f of None \<Rightarrow> PNone | Some s \<Rightarrow> PStr s)),
      (''field_type'', PStr (field_type f)),
      (''required'', PBool (required f))]"

text \<open>\<open>d.get(k)\<close>: \<open>None\<close> for a missing key.\<close>

definition dict_get :: "pyval pydict \<Rightarrow> string \<Rightarrow> pyval" where
  "dict_get d k = (case map_of d k of None \<Rightarrow> PNone | Some v \<Rightarrow> v)"

text \<open>\<open>[f.name for f in DynamicSchemaField._meta.fields]\<close>.\<close>

definition meta_field_names :: "string list" where
  "meta_field_names = [''id'', ''schema'', ''name'', ''verbose_name'', ''field_type'', ''required'']"

text \<open>The comparison loop of \<open>clean\<close>: the first differing field raises.\<close>

fun compare_fields :: "DynamicSchemaField \<Rightarrow> DynamicSchemaField \<Rightarrow> string list \<Rightarrow> error + unit" where
  "compare_fields old_model self [] = Inr ()"
| "compare_fields old_model self (field_name # rest) =
     (if dict_get (instance_dict old_model) field_name \<noteq> dict_get (instance_dict self) field_name
      then Inl ValidationError
      else compare_fields old_model self rest)"

text \<open>\<open>DynamicSchemaField.clean\<close>. \<open>not self.id\<close> holds for \<open>None\<close> and for \<open>0\<close>.\<close>

definition clean :: "field_table \<Rightarrow> DynamicSchemaField \<Rightarrow> error + unit" where
  "clean db self =
     (case pk self of
        None \<Rightarrow> Inr ()
      | Some i \<Rightarrow>
          if i = 0 then Inr ()
          else (case objects_get db i of
                  Inl e \<Rightarrow> Inl e
                | Inr old_model \<Rightarrow>
                    compare_fields old_model self (remove1 ''verbose_name'' meta_field_names)))"

text \<open>
  \<open>models.Model.save\<close>: the write itself. \<open>auto_pk\<close> is the key that the
  auto-increment column hands out to a row written without one. The table enforces the
  primary key and \<open>unique_together = ('schema', 'name')\<close>; a row whose key is already
  stored is updated, any other is inserted. No field validator runs here.
\<close>

definition model_save ::
  "field_table \<Rightarrow> int \<Rightarrow> DynamicSchemaField \<Rightarrow> bool \<Rightarrow>
   error + field_table \<times> DynamicSchemaField" where
  "model_save db auto_pk self force_insert =
     (if filter (\<lambda>r. pk r \<noteq> pk self \<and> schema_id r = schema_id self \<and> name r = name self) db \<noteq> []
      then Inl IntegrityError
      else (case pk self of
              None \<Rightarrow>
                if filter (\<lambda>r. pk r = Some auto_pk) db \<noteq> [] then Inl IntegrityError
                else (let obj = self\<lparr>pk := Some auto_pk\<rparr> in Inr (db @ [obj], obj))
            | Some i \<Rightarrow>
                if filter (\<lambda>r. pk r = Some i) db \<noteq> []
                then (if force_insert then Inl IntegrityError
                      else Inr (map (\<lambda>r. if pk r = Some i then self else r) db, self))
                else Inr (db @ [self], self)))"

text \<open>\<open>DynamicSchemaField.save\<close>: \<open>clean\<close>, then the inherited save.\<close>

definition DynamicSchemaField_save ::
  "field_table \<Rightarrow> int \<Rightarrow> DynamicSchemaField \<Rightarrow> bool \<Rightarrow>
   error + field_table \<times> DynamicSchemaField" where
  "DynamicSchemaField_save db auto_pk self force_insert =
     (case clean db self of
        Inl e \<Rightarrow> Inl e
      | Inr _ \<Rightarrow> model_save db auto_pk self force_insert)"

text \<open>
  The validator declared on \<open>name\<close>: \<open>RegexValidator(r'^[\w]+$')\<close>, a search for one or
  more word characters up to the end of the string or up to a final newline.
\<close>

definition is_word_char :: "char \<Rightarrow> bool" where
  "is_word_char c =
     (let n = (of_char c :: nat)
      in (48 \<le> n \<and> n \<le> 57) \<or> (65 \<le> n \<and> n \<le> 90) \<or> n = 95 \<or> (97 \<le> n \<and> n \<le> 122))"

definition name_validator :: "string \<Rightarrow> error + unit" where
  "name_validator v =
     (let body = (if v \<noteq> [] \<and> last v = CHR 0x0A then butlast v else v)
      in if body \<noteq> [] \<and> list_all is_word_char body then Inr () else Inl ValidationError)"

text \<open>
  \<open>DynamicSchema.add_field\<close>: \<open>self.fields.create(schema=self, name=name,
  field_type=type)\<close> builds the row with the column defaults and saves it with
  \<open>force_insert\<close>. The schema is given by its key.
\<close>

definition add_field ::
  "field_table \<Rightarrow> int \<Rightarrow> int \<Rightarrow> string \<Rightarrow> string \<Rightarrow>
   error + field_table \<times> DynamicSchemaField" where
  "add_field db auto_pk schema fname ftype =
     DynamicSchemaField_save db auto_pk
       \<lparr>pk = None, schema_id = schema, name = fname, verbose_name = None,
        field_type = ftype, required = True\<rparr>
       True"

text \<open>\<open>self.fields.all()\<close> and \<open>DynamicSchema.remove_field\<close>.\<close>

definition fields_all :: "field_table \<Rightarrow> int \<Rightarrow> DynamicSchemaField list" where
  "fields_all db schema = filter (\<lambda>r. schema_id r = schema) db"

definition remove_field :: "field_table \<Rightarrow> int \<Rightarrow> string \<Rightarrow> field_table" where
  "remove_field db schema fname = filter (\<lambda>r. \<not> (schema_id r = schema \<and> name r = fname)) db"

section \<open>Closed forms and sample data\<close>

text \<open>
  The store that \<open>_sync_with_schema\<close> leaves behind, in closed form: the entries whose key
  is a schema name, followed by a \<open>None\<close> entry for every schema name that had no entry.
\<close>

definition synced_store :: "DynamicModel \<Rightarrow> pyval pydict" where
  "synced_store self =
     set_each_none
       (filter (\<lambda>n. n \<notin> set (dict_keys (extra_fields self))) (get_extra_fields_names self))
       (filter (\<lambda>p. fst p \<in> set (get_extra_fields_names self)) (extra_fields self))"

text \<open>Two schema fields \<open>a\<close> and \<open>b\<close> of schema 1, and an instance with a stale key \<open>c\<close>.\<close>

definition field_a :: DynamicSchemaField where
  "field_a = \<lparr>pk = Some 1, schema_id = 1, name = ''a'', verbose_name = None,
              field_type = ''IntegerField'', required = True\<rparr>"

definition field_b :: DynamicSchemaField where
  "field_b = \<lparr>pk = Some 2, schema_id = 1, name = ''b'', verbose_name = Some ''Order ID'',
              field_type = ''BooleanField'', required = True\<rparr>"

definition stale_instance :: DynamicModel where
  "stale_instance =
     \<lparr>extra_fields = [(''a'', PInt 1), (''b'', PInt 2), (''c'', PInt 3)],
      schema_fields = [field_a, field_b],
      meta_fields = [''id'', ''extra_fields''],
      attrs = []\<rparr>"

text \<open>An instance whose schema declares a field called \<open>id\<close>, like the model's own column.\<close>

definition field_id :: DynamicSchemaField where
  "field_id = \<lparr>pk = Some 3, schema_id = 1, name = ''id'', verbose_name = None,
               field_type = ''IntegerField'', required = True\<rparr>"

definition shadowing_instance :: DynamicModel where
  "shadowing_instance =
     \<lparr>extra_fields = [(''a'', PInt 1), (''id'', PNone)],
      schema_fields = [field_a, field_id],
      meta_fields = [''id'', ''extra_fields''],
      attrs = []\<rparr>"

text \<open>
  A validated form on an instance with store \<open>{a: 1, b: 2}\<close> whose cleaned data has
  \<open>a\<close> only.
\<close>

definition partial_form :: DynamicForm where
  "partial_form =
     \<lparr>form_instance = stale_instance\<lparr>extra_fields := [(''a'', PInt 1), (''b'', PInt 2)]\<rparr>,
      form_fields = [],
      form_errors = [],
      cleaned_data = Some [(''a'', PInt 5)]\<rparr>"

text \<open>
  A field whose type is not in \<open>field_mapping\<close>, as \<open>add_field\<close> stores it, and a form on
  an instance whose schema holds it next to the Boolean field \<open>b\<close>.
\<close>

definition field_d :: DynamicSchemaField where
  "field_d = \<lparr>pk = Some 3, schema_id = 1, name = ''d'', verbose_name = None,
              field_type = ''DateField'', required = True\<rparr>"

definition unmapped_form :: DynamicForm where
  "unmapped_form =
     \<lparr>form_instance =
        \<lparr>extra_fields = [(''b'', PNone), (''d'', PNone)],
         schema_fields = [field_b, field_d],
         meta_fields = [''id'', ''extra_fields''],
         attrs = []\<rparr>,
      form_fields = [],
      form_errors = [],
      cleaned_data = None\<rparr>"

section \<open>Dictionary lemmas\<close>

lemma dict_setitem_keys:
  "dict_keys (dict_setitem k v d) = (if k \<in> set (dict_keys d) then dict_keys d else dict_keys d @ [k])"
  by (induction d) (force simp: dict_keys_def)+

lemma dict_setitem_map_of: "map_of (dict_setitem k v d) = (map_of d)(k \<mapsto> v)"
  by (induction d) (auto simp: fun_eq_iff)

lemma dict_setitem_distinct:
  "distinct (dict_keys d) \<Longrightarrow> distinct (dict_keys (dict_setitem k v d))"
  by (simp add: dict_setitem_keys)

lemma dict_delitem_present:
  "distinct (dict_keys d) \<Longrightarrow> k \<in> set (dict_keys d) \<Longrightarrow>
   dict_delitem k d = Inr (filter (\<lambda>p. fst p \<noteq> k) d)"
proof (induction d)
  case Nil
  then show ?case by (simp add: dict_keys_def)
next
  case (Cons p d)
  obtain k' v' where p: "p = (k', v')" by (cases p)
  show ?case
  proof (cases "k = k'")
    case True
    with Cons.prems p have "k \<notin> fst ` set d" by (auto simp: dict_keys_def)
    then have "filter (\<lambda>q. fst q \<noteq> k) d = d"
      by (intro filter_True) auto
    with True p show ?thesis by simp
  next
    case False
    with Cons p show ?thesis by (auto simp: dict_keys_def)
  qed
qed

lemma dict_delitem_absent: "k \<notin> set (dict_keys d) \<Longrightarrow> dict_delitem k d = Inl KeyError"
  by (induction d) (auto simp: dict_keys_def)

lemma del_each_present:
  "distinct (dict_keys d) \<Longrightarrow> distinct els \<Longrightarrow> set els \<subseteq> set (dict_keys d) \<Longrightarrow>
   del_each els d = Inr (filter (\<lambda>p. fst p \<notin> set els) d)"
proof (induction els arbitrary: d)
  case Nil
  then show ?case by simp
next
  case (Cons el els)
  let ?d' = "filter (\<lambda>p. fst p \<noteq> el) d"
  from Cons.prems have del: "dict_delitem el d = Inr ?d'"
    by (simp add: dict_delitem_present)
  have keys: "dict_keys ?d' = filter (\<lambda>k. k \<noteq> el) (dict_keys d)"
    by (simp add: dict_keys_def filter_map comp_def)
  from Cons.prems have "distinct (dict_keys ?d')" "distinct els" "set els \<subseteq> set (dict_keys ?d')"
    by (auto simp: keys)
  then have "del_each els ?d' = Inr (filter (\<lambda>p. fst p \<notin> set els) ?d')"
    by (rule Cons.IH)
  moreover have "filter (\<lambda>p. fst p \<notin> set els) ?d' = filter (\<lambda>p. fst p \<notin> set (el # els)) d"
    by (induction d) auto
  ultimately show ?case using del by simp
qed

lemma set_each_none_keys:
  "set (dict_keys (set_each_none els d)) = set (dict_keys d) \<union> set els"
  by (induction els arbitrary: d) (auto simp: dict_setitem_keys)

lemma set_each_none_distinct:
  "distinct (dict_keys d) \<Longrightarrow> distinct (dict_keys (set_each_none els d))"
  by (induction els arbitrary: d) (auto simp: dict_setitem_distinct)

lemma set_each_none_map_of:
  "map_of (set_each_none els d) k = (if k \<in> set els then Some PNone else map_of d k)"
  by (induction els arbitrary: d) (auto simp: dict_setitem_map_of)

section \<open>Synchronisation with the schema\<close>

lemma get_extra_fields_names_eq: "get_extra_fields_names self = map name (schema_fields self)"
  by (simp add: get_extra_fields_names_def get_extra_fields_def comp_def)

lemma sync_with_schema_eq:
  assumes "distinct (dict_keys (extra_fields self))"
  shows "sync_with_schema self = Inr (self\<lparr>extra_fields := synced_store self\<rparr>)"
proof -
  let ?S = "get_extra_fields_names self"
  let ?A = "extra_fields self"
  let ?clear = "filter (\<lambda>k. k \<notin> set ?S) (dict_keys ?A)"
  have "del_each ?clear ?A = Inr (filter (\<lambda>p. fst p \<notin> set ?clear) ?A)"
    using assms by (intro del_each_present) auto
  moreover have "filter (\<lambda>p. fst p \<notin> set ?clear) ?A = filter (\<lambda>p. fst p \<in> set ?S) ?A"
    by (intro filter_cong) (auto simp: dict_keys_def)
  ultimately show ?thesis
    by (simp add: sync_with_schema_def synced_store_def dict_contains_def Let_def)
qed

lemma synced_store_keys:
  "set (dict_keys (synced_store self)) = set (get_extra_fields_names self)"
proof -
  have "set (dict_keys (filter (\<lambda>p. fst p \<in> S) A)) = set (dict_keys A) \<inter> S"
    for S and A :: "pyval pydict"
    by (auto simp: dict_keys_def)
  then show ?thesis
    unfolding synced_store_def set_each_none_keys by auto
qed

lemma synced_store_distinct:
  "distinct (dict_keys (extra_fields self)) \<Longrightarrow> distinct (dict_keys (synced_store self))"
  unfolding synced_store_def
  by (intro set_each_none_distinct) (simp add: dict_keys_def distinct_map_filter)

lemma synced_store_map_of:
  "map_of (synced_store self) k =
     (if k \<in> set (get_extra_fields_names self)
      then (if k \<in> set (dict_keys (extra_fields self)) then map_of (extra_fields self) k
            else Some PNone)
      else None)"
proof -
  have "map_of (filter (\<lambda>p. fst p \<in> S) A) k = (if k \<in> S then map_of A k else None)"
    for S and A :: "pyval pydict"
    by (induction A) auto
  then show ?thesis
    by (auto simp: synced_store_def set_each_none_map_of dict_keys_def map_of_eq_None_iff)
qed


text \<open>
  Claim C1 (sync completeness). For a store with pairwise distinct keys,
  \<open>_sync_with_schema\<close> returns without raising, and afterwards the key set of the store
  is exactly the set of field names declared on the schema; the keys are still distinct.
  In particular the store is empty exactly when the schema has no fields.
\<close>

theorem sync_completeness:
  assumes "distinct (dict_keys (extra_fields self))"
  shows "\<exists>self'. sync_with_schema self = Inr self' \<and>
           set (dict_keys (extra_fields self')) = set (get_extra_fields_names self) \<and>
           distinct (dict_keys (extra_fields self')) \<and>
           (extra_fields self' = []) = (schema_fields self = [])"
proof -
  let ?self' = "self\<lparr>extra_fields := synced_store self\<rparr>"
  have keys: "set (dict_keys (synced_store self)) = set (get_extra_fields_names self)"
    by (rule synced_store_keys)
  have "(synced_store self = []) = (set (dict_keys (synced_store self)) = {})"
    by (simp add: dict_keys_def)
  also have "\<dots> = (schema_fields self = [])"
    by (simp add: keys get_extra_fields_names_eq)
  finally have empty: "(synced_store self = []) = (schema_fields self = [])" .
  have "sync_with_schema self = Inr ?self'"
    using assms by (rule sync_with_schema_eq)
  with keys empty synced_store_distinct [OF assms] show ?thesis by simp
qed

theorem sync_completeness_witness:
  "distinct (dict_keys (extra_fields stale_instance)) \<and>
   (\<exists>self'. sync_with_schema stale_instance = Inr self' \<and>
      set (dict_keys (extra_fields self')) = {''a'', ''b''})"
proof -
  have h: "distinct (dict_keys (extra_fields stale_instance))"
    by (simp add: stale_instance_def dict_keys_def)
  have names: "set (get_extra_fields_names stale_instance) = {''a'', ''b''}"
    by (simp add: get_extra_fields_names_eq stale_instance_def field_a_def field_b_def)
  from sync_completeness [OF h] names h show ?thesis by auto
qed

text \<open>
  Claim C2 (sync idempotence). A second \<open>_sync_with_schema\<close> against the same schema
  returns the already synchronised instance unchanged.
\<close>

theorem sync_idempotent:
  assumes "distinct (dict_keys (extra_fields self))"
  shows "\<exists>self'. sync_with_schema self = Inr self' \<and> sync_with_schema self' = Inr self'"
proof -
  let ?self' = "self\<lparr>extra_fields := synced_store self\<rparr>"
  have first: "sync_with_schema self = Inr ?self'"
    using assms by (rule sync_with_schema_eq)
  have names: "get_extra_fields_names ?self' = get_extra_fields_names self"
    by (simp add: get_extra_fields_names_eq)
  have keys: "set (dict_keys (synced_store self)) = set (get_extra_fields_names self)"
    by (rule synced_store_keys)
  have no_new: "filter (\<lambda>n. n \<notin> set (dict_keys (synced_store self))) (get_extra_fields_names self) = []"
    by (simp add: keys)
  have "\<forall>p \<in> set (synced_store self). fst p \<in> set (get_extra_fields_names self)"
    using keys by (auto simp: dict_keys_def)
  then have all_kept: "filter (\<lambda>p. fst p \<in> set (get_extra_fields_names self)) (synced_store self) = synced_store self"
    by (simp add: filter_id_conv)
  have "synced_store ?self' = synced_store self"
    unfolding synced_store_def [of ?self'] names
    by (simp add: no_new all_kept)
  moreover have "distinct (dict_keys (extra_fields ?self'))"
    using synced_store_distinct [OF assms] by simp
  then have "sync_with_schema ?self' = Inr (?self'\<lparr>extra_fields := synced_store ?self'\<rparr>)"
    by (rule sync_with_schema_eq)
  ultimately have "sync_with_schema ?self' = Inr ?self'" by simp
  with first show ?thesis by blast
qed

theorem sync_idempotent_witness:
  "distinct (dict_keys (extra_fields stale_instance)) \<and>
   sync_with_schema stale_instance =
     Inr (stale_instance\<lparr>extra_fields := [(''a'', PInt 1), (''b'', PInt 2)]\<rparr>) \<and>
   sync_with_schema (stale_instance\<lparr>extra_fields := [(''a'', PInt 1), (''b'', PInt 2)]\<rparr>) =
     Inr (stale_instance\<lparr>extra_fields := [(''a'', PInt 1), (''b'', PInt 2)]\<rparr>)"
proof -
  have h: "distinct (dict_keys (extra_fields stale_instance))"
    by (simp add: stale_instance_def dict_keys_def)
  have first: "sync_with_schema stale_instance =
      Inr (stale_instance\<lparr>extra_fields := [(''a'', PInt 1), (''b'', PInt 2)]\<rparr>)"
    by code_simp
  from sync_idempotent [OF h] first h show ?thesis by auto
qed

text \<open>
  Claim C3 (sync value preservation). After \<open>_sync_with_schema\<close>, a key that was in
  the store and is a schema name keeps its value, a schema name that was not in the store
  maps to \<open>None\<close>, and a key that is not a schema name is gone.
\<close>

theorem sync_value_preservation:
  assumes "distinct (dict_keys (extra_fields self))"
  shows "\<exists>self'. sync_with_schema self = Inr self' \<and>
           (\<forall>k. map_of (extra_fields self') k =
                  (if k \<in> set (get_extra_fields_names self)
                   then (if dict_contains k (extra_fields self)
                         then map_of (extra_fields self) k else Some PNone)
                   else None))"
proof -
  have "sync_with_schema self = Inr (self\<lparr>extra_fields := synced_store self\<rparr>)"
    using assms by (rule sync_with_schema_eq)
  then show ?thesis
    by (simp add: synced_store_map_of dict_contains_def)
qed

theorem sync_value_preservation_witness:
  "distinct (dict_keys (extra_fields stale_instance)) \<and>
   (\<exists>self'. sync_with_schema stale_instance = Inr self' \<and>
      map_of (extra_fields self') ''a'' = Some (PInt 1) \<and>
      map_of (extra_fields self') ''b'' = Some (PInt 2) \<and>
      map_of (extra_fields self') ''c'' = None)"
proof -
  have h: "distinct (dict_keys (extra_fields stale_instance))"
    by (simp add: stale_instance_def dict_keys_def)
  have names: "set (get_extra_fields_names stale_instance) = {''a'', ''b''}"
    by (simp add: get_extra_fields_names_eq stale_instance_def field_a_def field_b_def)
  from sync_value_preservation [OF h] obtain self' where
    s: "sync_with_schema stale_instance = Inr self'" and
    v: "\<And>k. map_of (extra_fields self') k =
          (if k \<in> set (get_extra_fields_names stale_instance)
           then (if dict_contains k (extra_fields stale_instance)
                 then map_of (extra_fields stale_instance) k else Some PNone)
           else None)"
    by blast
  have "map_of (extra_fields self') ''a'' = Some (PInt 1)"
       "map_of (extra_fields self') ''b'' = Some (PInt 2)"
       "map_of (extra_fields self') ''c'' = None"
    unfolding v names
    by (simp_all add: stale_instance_def dict_contains_def dict_keys_def)
  with s h show ?thesis by blast
qed

section \<open>The form projector\<close>

lemma field_mapping_lookup:
  assumes "ftype \<in> set (dict_keys field_mapping)"
  shows "\<exists>c cls. dict_getitem field_mapping ftype = Inr c \<and> dict_getitem c ''field'' = Inr cls"
  using assms by (auto simp: field_mapping_def dict_keys_def dict_getitem_def)

lemma add_extra_fields_entries:
  assumes "\<forall>row \<in> set rows. fst (snd (snd row)) \<in> set (dict_keys field_mapping)"
  shows "\<exists>fs'. add_extra_fields gettext capitalize inst rows fs = Inr fs' \<and>
           (\<forall>n. n \<notin> fst ` set rows \<longrightarrow> map_of fs' n = map_of fs n) \<and>
           (distinct (map fst rows) \<longrightarrow>
              (\<forall>n vn ft req v. (n, vn, ft, req, v) \<in> set rows \<longrightarrow>
                 (\<exists>entry. map_of fs' n = Some entry \<and>
                    form_required entry = (if ft = ''BooleanField'' then False else req) \<and>
                    label entry = field_label gettext capitalize n vn \<and>
                    initial entry = get_extra_field_value inst n)))"
  using assms
proof (induction rows arbitrary: fs)
  case Nil
  then show ?case by simp
next
  case (Cons row rows)
  obtain n vn ft req v where row: "row = (n, vn, ft, req, v)" by (cases row)
  from Cons.prems row have "ft \<in> set (dict_keys field_mapping)" by simp
  then obtain c cls where c: "dict_getitem field_mapping ft = Inr c"
    and cls: "dict_getitem c ''field'' = Inr cls"
    using field_mapping_lookup by blast
  define entry where "entry = \<lparr>form_class = cls, widget = map_of c ''widget'',
      form_required = (if ft = ''BooleanField'' then False else req),
      initial = get_extra_field_value inst n, label = field_label gettext capitalize n vn\<rparr>"
  define fs1 where "fs1 = dict_setitem n entry fs"
  have step: "add_extra_fields gettext capitalize inst (row # rows) fs = add_extra_fields gettext capitalize inst rows fs1"
    by (simp add: row c cls fs1_def entry_def)
  from Cons.prems have "\<forall>row \<in> set rows. fst (snd (snd row)) \<in> set (dict_keys field_mapping)"
    by simp
  from Cons.IH [OF this, of fs1] obtain fs' where
    res: "add_extra_fields gettext capitalize inst rows fs1 = Inr fs'" and
    frame: "\<And>k. k \<notin> fst ` set rows \<Longrightarrow> map_of fs' k = map_of fs1 k" and
    ent: "distinct (map fst rows) \<Longrightarrow> (n', vn', ft', req', v') \<in> set rows \<Longrightarrow>
           \<exists>entry. map_of fs' n' = Some entry \<and>
             form_required entry = (if ft' = ''BooleanField'' then False else req') \<and>
             label entry = field_label gettext capitalize n' vn' \<and>
             initial entry = get_extra_field_value inst n'" for n' vn' ft' req' v'
    by blast
  have fs1: "map_of fs1 = (map_of fs)(n \<mapsto> entry)"
    by (simp add: fs1_def dict_setitem_map_of)
  have "map_of fs' k = map_of fs k" if "k \<notin> fst ` set (row # rows)" for k
    using that frame [of k] by (simp add: fs1 row)
  moreover have "\<exists>entry. map_of fs' n' = Some entry \<and>
             form_required entry = (if ft' = ''BooleanField'' then False else req') \<and>
             label entry = field_label gettext capitalize n' vn' \<and>
             initial entry = get_extra_field_value inst n'"
    if d: "distinct (map fst (row # rows))" and m: "(n', vn', ft', req', v') \<in> set (row # rows)"
    for n' vn' ft' req' v'
  proof (cases "(n', vn', ft', req', v') = row")
    case True
    with d row have "n \<notin> fst ` set rows" and eq: "n' = n" "vn' = vn" "ft' = ft" "req' = req"
      by auto
    then have "map_of fs' n = Some entry" using frame [of n] by (simp add: fs1)
    then show ?thesis by (simp add: eq entry_def)
  next
    case False
    with m have "(n', vn', ft', req', v') \<in> set rows" by simp
    moreover from d have "distinct (map fst rows)" by simp
    ultimately show ?thesis by (rule ent [rotated])
  qed
  ultimately show ?case unfolding step res by blast
qed

lemma DynamicForm_init_entry:
  assumes types: "set (map field_type (schema_fields (form_instance self))) \<subseteq> set (dict_keys field_mapping)"
    and names: "distinct (get_extra_fields_names (form_instance self))"
    and f: "f \<in> set (schema_fields (form_instance self))"
  shows "\<exists>self' entry. DynamicForm_init gettext capitalize self = Inr self' \<and>
           map_of (form_fields self') (name f) = Some entry \<and>
           form_required entry = (if field_type f = ''BooleanField'' then False else required f) \<and>
           label entry = field_label gettext capitalize (name f) (verbose_name f) \<and>
           initial entry = get_extra_field_value (form_instance self) (name f)"
proof -
  let ?inst = "form_instance self"
  let ?rows = "get_extra_fields ?inst"
  have "\<forall>row \<in> set ?rows. fst (snd (snd row)) \<in> set (dict_keys field_mapping)"
    using types by (auto simp: get_extra_fields_def)
  from add_extra_fields_entries [OF this, of gettext capitalize ?inst "form_fields self"]
  obtain fs' where res: "add_extra_fields gettext capitalize ?inst ?rows (form_fields self) = Inr fs'"
    and ent: "distinct (map fst ?rows) \<Longrightarrow> (n, vn, ft, req, v) \<in> set ?rows \<Longrightarrow>
           \<exists>entry. map_of fs' n = Some entry \<and>
             form_required entry = (if ft = ''BooleanField'' then False else req) \<and>
             label entry = field_label gettext capitalize n vn \<and>
             initial entry = get_extra_field_value ?inst n" for n vn ft req v
    by blast
  have d: "distinct (map fst ?rows)"
    using names by (simp add: get_extra_fields_names_def get_extra_fields_def comp_def)
  have m: "(name f, verbose_name f, field_type f, required f,
            get_extra_field_value ?inst (name f)) \<in> set ?rows"
    using f by (auto simp: get_extra_fields_def)
  from ent [OF d m] res show ?thesis
    by (auto simp: DynamicForm_init_def)
qed

lemma str_split_not_Nil: "str_split s sep \<noteq> []"
  by (induction s) (auto split: list.splits)

lemma str_join_Cons_Cons: "str_join sep ((c # w) # ws) = c # str_join sep (w # ws)"
  by (cases ws) simp_all

lemma str_join_Nil_Cons: "ws \<noteq> [] \<Longrightarrow> str_join sep ([] # ws) = sep @ str_join sep ws"
  by (cases ws) simp_all

lemma join_split_replace:
  "str_join [r] (str_split s sep) = map (\<lambda>c. if c = sep then r else c) s"
proof (induction s)
  case Nil
  then show ?case by simp
next
  case (Cons c s)
  show ?case
  proof (cases "c = sep")
    case True
    then show ?thesis
      using Cons.IH by (simp add: str_join_Nil_Cons str_split_not_Nil)
  next
    case False
    obtain w ws where ws: "str_split s sep = w # ws"
      using str_split_not_Nil [of s sep] by (cases "str_split s sep") auto
    with False Cons.IH show ?thesis
      by (simp add: str_join_Cons_Cons)
  qed
qed

lemma field_label_eq:
  "field_label gettext capitalize fname vname =
     (if vname \<noteq> None \<and> vname \<noteq> Some []
      then capitalize (gettext (the vname))
      else capitalize (map (\<lambda>c. if c = CHR ''_'' then CHR '' '' else c) fname))"
  by (cases vname) (simp_all add: field_label_def join_split_replace)

lemma DynamicForm_init_unmapped:
  assumes "f \<in> set (schema_fields (form_instance self))"
    and "field_type f \<notin> set (dict_keys field_mapping)"
  shows "DynamicForm_init gettext capitalize self = Inl KeyError"
proof -
  from assms(2) have "map_of field_mapping (field_type f) = None"
    by (simp add: dict_keys_def map_of_eq_None_iff)
  then have no_case: "dict_getitem field_mapping (field_type f) = Inl KeyError"
    by (simp add: dict_getitem_def)
  have "add_extra_fields gettext capitalize inst rows fs = Inl KeyError"
    if "(n, vn, field_type f, req, v) \<in> set rows" for inst rows fs n vn req v
    using that
  proof (induction rows arbitrary: fs)
    case Nil
    then show ?case by simp
  next
    case (Cons row rows)
    obtain n' vn' ft' req' v' where row: "row = (n', vn', ft', req', v')" by (cases row)
    show ?case
    proof (cases "dict_getitem field_mapping ft'")
      case (Inl e)
      then have "e = KeyError"
        by (auto simp: dict_getitem_def split: option.splits)
      with Inl row show ?thesis by simp
    next
      case (Inr c)
      with no_case have "ft' \<noteq> field_type f" by auto
      with Cons.prems row have mem: "(n, vn, field_type f, req, v) \<in> set rows" by auto
      show ?thesis
      proof (cases "dict_getitem c ''field''")
        case (Inl e)
        then have "e = KeyError"
          by (auto simp: dict_getitem_def split: option.splits)
        with Inl Inr row show ?thesis by simp
      next
        case cls: (Inr cls)
        with Inr row Cons.IH [OF mem] show ?thesis by simp
      qed
    qed
  qed
  moreover have "(name f, verbose_name f, field_type f, required f,
      get_extra_field_value (form_instance self) (name f))
      \<in> set (get_extra_fields (form_instance self))"
    using assms(1) by (auto simp: get_extra_fields_def)
  ultimately show ?thesis
    by (simp add: DynamicForm_init_def)
qed

text \<open>
  Claim C7 (Boolean requiredness override) as stated fails: the schema holds the Boolean
  field \<open>b\<close> and a field of type \<open>DateField\<close>, which \<open>add_field\<close> accepts; the lookup
  in \<open>field_mapping\<close> raises \<open>KeyError\<close>, so \<open>DynamicForm.__init__\<close> builds no entry
  for \<open>b\<close>.
\<close>

theorem boolean_required_unmapped_counterexample:
  "add_field [field_b] 3 1 ''d'' ''DateField'' = Inr ([field_b, field_d], field_d) \<and>
   schema_fields (form_instance unmapped_form) = [field_b, field_d] \<and>
   field_type field_b = ''BooleanField'' \<and>
   DynamicForm_init (\<lambda>s. s) ascii_capitalize unmapped_form = Inl KeyError"
  by code_simp

text \<open>
  Claim C7 as amended. When every declared field type is one of the five types of
  \<open>field_mapping\<close> and the declared names are pairwise distinct,
  \<open>DynamicForm.__init__\<close> succeeds and the entry it stores under a field's name has
  \<open>required = False\<close> if the field type is \<open>BooleanField\<close>, and the field's own
  \<open>required\<close> flag otherwise.
\<close>

theorem boolean_required_override:
  assumes "set (map field_type (schema_fields (form_instance self))) \<subseteq> set (dict_keys field_mapping)"
    and "distinct (get_extra_fields_names (form_instance self))"
    and "f \<in> set (schema_fields (form_instance self))"
  shows "\<exists>self' entry. DynamicForm_init gettext capitalize self = Inr self' \<and>
           map_of (form_fields self') (name f) = Some entry \<and>
           form_required entry = (if field_type f = ''BooleanField'' then False else required f)"
  using DynamicForm_init_entry [OF assms, of gettext capitalize] by blast

theorem boolean_required_override_witness:
  "set (map field_type (schema_fields (form_instance partial_form))) \<subseteq> set (dict_keys field_mapping) \<and>
   distinct (get_extra_fields_names (form_instance partial_form)) \<and>
   field_b \<in> set (schema_fields (form_instance partial_form)) \<and>
   field_type field_b = ''BooleanField'' \<and> required field_b \<and>
   (\<exists>self' entry. DynamicForm_init (\<lambda>s. s) ascii_capitalize partial_form = Inr self' \<and>
      map_of (form_fields self') ''b'' = Some entry \<and> \<not> form_required entry)"
proof -
  have t: "set (map field_type (schema_fields (form_instance partial_form))) \<subseteq> set (dict_keys field_mapping)"
    by (simp add: partial_form_def stale_instance_def field_a_def field_b_def field_mapping_def
        dict_keys_def)
  have d: "distinct (get_extra_fields_names (form_instance partial_form))"
    by (simp add: get_extra_fields_names_eq partial_form_def stale_instance_def field_a_def
        field_b_def)
  have m: "field_b \<in> set (schema_fields (form_instance partial_form))"
    by (simp add: partial_form_def stale_instance_def)
  have b: "field_type field_b = ''BooleanField''" "required field_b" "name field_b = ''b''"
    by (simp_all add: field_b_def)
  from boolean_required_override [OF t d m, of "\<lambda>s. s" ascii_capitalize] t d m b show ?thesis
    by auto
qed

text \<open>
  Claim C9 (label derivation) as stated fails: field \<open>b\<close> declares the verbose name
  \<open>Order ID\<close>, a string of ASCII characters, and the label of its form entry is
  \<open>Order id\<close>, because \<open>capitalize\<close> is applied to the verbose name too and
  lower-cases every character after the first.
\<close>

theorem label_verbose_name_counterexample:
  "verbose_name field_b = Some ''Order ID'' \<and>
   DynamicForm_init (\<lambda>s. s) ascii_capitalize partial_form =
     Inr (partial_form\<lparr>form_fields :=
       [(''a'', \<lparr>form_class = ''forms.IntegerField'', widget = None, form_required = True,
                 initial = PInt 1, label = ''A''\<rparr>),
        (''b'', \<lparr>form_class = ''forms.BooleanField'', widget = None, form_required = False,
                 initial = PInt 2, label = ''Order id''\<rparr>)]\<rparr>) \<and>
   ''Order id'' \<noteq> ''Order ID''"
  by code_simp

text \<open>
  Claim C9 as amended. When every declared field type is one of the five types of
  \<open>field_mapping\<close> and the declared names are pairwise distinct, the label of a field's
  entry is \<open>capitalize\<close> applied to the translated verbose name when the verbose name is
  present and not empty; otherwise it is \<open>capitalize\<close> applied to the field name with
  every underscore replaced by a space.
\<close>

theorem label_derivation:
  assumes "set (map field_type (schema_fields (form_instance self))) \<subseteq> set (dict_keys field_mapping)"
    and "distinct (get_extra_fields_names (form_instance self))"
    and "f \<in> set (schema_fields (form_instance self))"
  shows "\<exists>self' entry. DynamicForm_init gettext capitalize self = Inr self' \<and>
           map_of (form_fields self') (name f) = Some entry \<and>
           label entry =
             (if verbose_name f \<noteq> None \<and> verbose_name f \<noteq> Some []
              then capitalize (gettext (the (verbose_name f)))
              else capitalize (map (\<lambda>c. if c = CHR ''_'' then CHR '' '' else c) (name f)))"
  using DynamicForm_init_entry [OF assms, of gettext capitalize] by (auto simp: field_label_eq)

theorem label_derivation_witness:
  "set (map field_type (schema_fields (form_instance partial_form))) \<subseteq> set (dict_keys field_mapping) \<and>
   distinct (get_extra_fields_names (form_instance partial_form)) \<and>
   field_b \<in> set (schema_fields (form_instance partial_form)) \<and>
   (\<exists>self' entry. DynamicForm_init (\<lambda>s. s) ascii_capitalize partial_form = Inr self' \<and>
      map_of (form_fields self') ''b'' = Some entry \<and> label entry = ''Order id'')"
proof -
  have t: "set (map field_type (schema_fields (form_instance partial_form))) \<subseteq> set (dict_keys field_mapping)"
    by (simp add: partial_form_def stale_instance_def field_a_def field_b_def field_mapping_def
        dict_keys_def)
  have d: "distinct (get_extra_fields_names (form_instance partial_form))"
    by (simp add: get_extra_fields_names_eq partial_form_def stale_instance_def field_a_def
        field_b_def)
  have m: "field_b \<in> set (schema_fields (form_instance partial_form))"
    by (simp add: partial_form_def stale_instance_def)
  have c: "ascii_capitalize ''Order ID'' = ''Order id''" by code_simp
  have b: "verbose_name field_b = Some ''Order ID''" "name field_b = ''b''"
    by (simp_all add: field_b_def)
  from label_derivation [OF t d m, of "\<lambda>s. s" ascii_capitalize] obtain self' entry where
    "DynamicForm_init (\<lambda>s. s) ascii_capitalize partial_form = Inr self'"
    "map_of (form_fields self') ''b'' = Some entry"
    "label entry = ascii_capitalize ''Order ID''"
    by (auto simp: b simp del: ascii_capitalize.simps)
  with t d m show ?thesis
    unfolding c by blast
qed

section \<open>Form save-back\<close>

lemma dict_getitem_key:
  "k \<in> set (dict_keys d) \<Longrightarrow> \<exists>v. dict_getitem d k = Inr v \<and> map_of d k = Some v"
proof -
  assume "k \<in> set (dict_keys d)"
  then have "map_of d k \<noteq> None"
    by (simp add: dict_keys_def map_of_eq_None_iff)
  then show ?thesis by (auto simp: dict_getitem_def)
qed

lemma copy_cleaned_result:
  assumes "set ks \<subseteq> set (dict_keys cleaned)"
  shows "\<exists>acc'. copy_cleaned ks names cleaned acc = Inr acc' \<and>
           (\<forall>k. map_of acc' k =
                  (if k \<in> set ks \<and> k \<in> set names then map_of cleaned k else map_of acc k))"
  using assms
proof (induction ks arbitrary: acc)
  case Nil
  then show ?case by simp
next
  case (Cons key ks)
  from Cons.prems have ks: "set ks \<subseteq> set (dict_keys cleaned)"
    and key: "key \<in> set (dict_keys cleaned)" by simp_all
  show ?case
  proof (cases "key \<in> set names")
    case True
    from dict_getitem_key [OF key] obtain v where
      v: "dict_getitem cleaned key = Inr v" "map_of cleaned key = Some v" by blast
    from Cons.IH [OF ks, of "dict_setitem key v acc"] obtain acc' where
      "copy_cleaned ks names cleaned (dict_setitem key v acc) = Inr acc'"
      "\<And>k. map_of acc' k =
         (if k \<in> set ks \<and> k \<in> set names then map_of cleaned k
          else map_of (dict_setitem key v acc) k)"
      by blast
    with True v show ?thesis
      by (auto simp: dict_setitem_map_of)
  next
    case False
    from Cons.IH [OF ks, of acc] obtain acc' where
      "copy_cleaned ks names cleaned acc = Inr acc'"
      "\<And>k. map_of acc' k =
         (if k \<in> set ks \<and> k \<in> set names then map_of cleaned k else map_of acc k)"
      by blast
    with False show ?thesis by auto
  qed
qed

text \<open>A form with errors is refused before the store is touched.\<close>

lemma DynamicForm_save_errors:
  "form_errors self \<noteq> [] \<Longrightarrow> DynamicForm_save self = Inl ValueError"
  by (simp add: DynamicForm_save_def ModelForm_save_def)

text \<open>
  Claim C5 (apply frame property) as stated fails: the form has no errors, \<open>b\<close> is
  declared, is stored with value 2 and is absent from the cleaned data; after
  \<open>DynamicForm.save\<close> the store is \<open>{a: 5}\<close> and has no entry for \<open>b\<close>.
\<close>

theorem form_save_keeps_absent_counterexample:
  "form_errors partial_form = [] \<and>
   cleaned_data partial_form = Some [(''a'', PInt 5)] \<and>
   ''b'' \<in> set (get_extra_fields_names (form_instance partial_form)) \<and>
   map_of (extra_fields (form_instance partial_form)) ''b'' = Some (PInt 2) \<and>
   DynamicForm_save partial_form =
     Inr ((form_instance partial_form)\<lparr>extra_fields := [(''a'', PInt 5)]\<rparr>) \<and>
   map_of [(''a'', PInt 5)] ''b'' = (None :: pyval option)"
  by code_simp

text \<open>
  Claim C5 as amended. On a form that has no errors and has cleaned data,
  \<open>DynamicForm.save\<close> returns without raising and replaces the store by a fresh mapping:
  a declared field name maps to its value in the cleaned data when it is present there, and
  every other key, a declared name absent from the cleaned data included, has no entry. The
  resolved schema is unchanged.
\<close>

theorem form_save_replaces_store:
  assumes "form_errors self = []" and "cleaned_data self = Some cleaned"
  shows "\<exists>m. DynamicForm_save self = Inr m \<and>
        schema_fields m = schema_fields (form_instance self) \<and>
        (\<forall>k. map_of (extra_fields m) k =
               (if k \<in> set (get_extra_fields_names (form_instance self))
                then map_of cleaned k else None))"
proof -
  let ?names = "get_extra_fields_names (form_instance self)"
  from copy_cleaned_result [of "dict_keys cleaned" cleaned ?names "[]"]
  obtain acc' where
    res: "copy_cleaned (dict_keys cleaned) ?names cleaned [] = Inr acc'"
    and lookup: "\<And>k. map_of acc' k =
         (if k \<in> set (dict_keys cleaned) \<and> k \<in> set ?names
          then map_of cleaned k else map_of [] k)"
    by auto
  have "map_of acc' k = (if k \<in> set ?names then map_of cleaned k else None)" for k
  proof (cases "k \<in> set (dict_keys cleaned)")
    case True
    then show ?thesis unfolding lookup by simp
  next
    case False
    then have "map_of cleaned k = None"
      by (simp add: dict_keys_def map_of_eq_None_iff)
    with False show ?thesis unfolding lookup by simp
  qed
  moreover have "DynamicForm_save self =
      Inr (DynamicModel_setattr (form_instance self) ''extra_fields'' (PDict acc'))"
    using res assms
    by (simp add: DynamicForm_save_def ModelForm_save_def get_extra_fields_names_def)
  moreover have "extra_fields (DynamicModel_setattr (form_instance self) ''extra_fields'' (PDict acc')) = acc'"
    "schema_fields (DynamicModel_setattr (form_instance self) ''extra_fields'' (PDict acc'))
       = schema_fields (form_instance self)"
    by (simp_all add: DynamicModel_setattr_def object_setattr_def Let_def)
  ultimately show ?thesis by simp
qed

theorem form_save_replaces_store_witness:
  "form_errors partial_form = [] \<and>
   cleaned_data partial_form = Some [(''a'', PInt 5)] \<and>
   (\<exists>m. DynamicForm_save partial_form = Inr m \<and>
        map_of (extra_fields m) ''a'' = Some (PInt 5) \<and>
        map_of (extra_fields m) ''b'' = None)"
proof -
  have e: "form_errors partial_form = []"
    and c: "cleaned_data partial_form = Some [(''a'', PInt 5)]"
    by (simp_all add: partial_form_def)
  have names: "set (get_extra_fields_names (form_instance partial_form)) = {''a'', ''b''}"
    by (simp add: get_extra_fields_names_eq partial_form_def stale_instance_def field_a_def
        field_b_def)
  from form_save_replaces_store [OF e c] obtain m where
    s: "DynamicForm_save partial_form = Inr m" and
    v: "\<And>k. map_of (extra_fields m) k =
          (if k \<in> set (get_extra_fields_names (form_instance partial_form))
           then map_of [(''a'', PInt 5)] k else None)"
    by blast
  have "map_of (extra_fields m) ''a'' = Some (PInt 5)" "map_of (extra_fields m) ''b'' = None"
    unfolding v names by simp_all
  with s e c show ?thesis by blast
qed

section \<open>Assigning attributes\<close>

text \<open>
  Claim C8 (silent no-op on undeclared set) as stated fails on both halves. The schema
  declares a field \<open>id\<close>, which is also a column of the model: assigning it leaves the
  store unchanged and only sets the ordinary attribute. And \<open>extra_fields\<close> is not a
  declared field, yet assigning it replaces the store.
\<close>

theorem setattr_declared_counterexample:
  "''id'' \<in> set (get_extra_fields_names shadowing_instance) \<and>
   extra_fields (DynamicModel_setattr shadowing_instance ''id'' (PInt 5)) =
     [(''a'', PInt 1), (''id'', PNone)] \<and>
   attrs (DynamicModel_setattr shadowing_instance ''id'' (PInt 5)) = [(''id'', PInt 5)] \<and>
   ''extra_fields'' \<notin> set (get_extra_fields_names shadowing_instance) \<and>
   extra_fields (DynamicModel_setattr shadowing_instance ''extra_fields'' (PDict [])) = [] \<and>
   extra_fields shadowing_instance \<noteq> []"
  by code_simp

text \<open>
  Claim C8 as amended. \<open>__setattr__\<close> never raises, and with \<open>extra_fields\<close> set apart
  it acts by cases on the name. For a name that is not declared and is not
  \<open>extra_fields\<close>, the store is unchanged and the value is kept as an ordinary attribute.
  For a declared name that is not a column of the model, not \<open>_schema\<close> and not
  \<open>extra_fields\<close>, the value is written into the store under that name and kept as an
  ordinary attribute as well. For a declared name that is a column of the model or
  \<open>_schema\<close>, and is not \<open>extra_fields\<close>, the store is unchanged and only the ordinary
  attribute is set. Assigning a mapping to \<open>extra_fields\<close> itself replaces the store by
  that mapping.
\<close>

theorem setattr_store_effect:
  "(attr_name \<notin> set (get_extra_fields_names self) \<and> attr_name \<noteq> ''extra_fields'' \<longrightarrow>
      extra_fields (DynamicModel_setattr self attr_name v) = extra_fields self \<and>
      map_of (attrs (DynamicModel_setattr self attr_name v)) attr_name = Some v) \<and>
   (attr_name \<in> set (get_extra_fields_names self) \<and> attr_name \<notin> set (meta_fields self) \<and>
    attr_name \<noteq> ''_schema'' \<and> attr_name \<noteq> ''extra_fields'' \<longrightarrow>
      extra_fields (DynamicModel_setattr self attr_name v) =
        dict_setitem attr_name v (extra_fields self) \<and>
      map_of (extra_fields (DynamicModel_setattr self attr_name v)) attr_name = Some v \<and>
      map_of (attrs (DynamicModel_setattr self attr_name v)) attr_name = Some v) \<and>
   (attr_name \<in> set (get_extra_fields_names self) \<and>
    (attr_name \<in> set (meta_fields self) \<or> attr_name = ''_schema'') \<and>
    attr_name \<noteq> ''extra_fields'' \<longrightarrow>
      extra_fields (DynamicModel_setattr self attr_name v) = extra_fields self \<and>
      map_of (attrs (DynamicModel_setattr self attr_name v)) attr_name = Some v) \<and>
   extra_fields (DynamicModel_setattr self ''extra_fields'' (PDict d)) = d"
  by (auto simp: DynamicModel_setattr_def object_setattr_def Let_def dict_setitem_map_of)

theorem setattr_store_effect_witness:
  "(''zz'' \<notin> set (get_extra_fields_names shadowing_instance) \<and> ''zz'' \<noteq> ''extra_fields'' \<and>
      extra_fields (DynamicModel_setattr shadowing_instance ''zz'' (PInt 7)) =
        extra_fields shadowing_instance \<and>
      map_of (attrs (DynamicModel_setattr shadowing_instance ''zz'' (PInt 7))) ''zz'' = Some (PInt 7)) \<and>
   (''a'' \<in> set (get_extra_fields_names shadowing_instance) \<and>
    ''a'' \<notin> set (meta_fields shadowing_instance) \<and> ''a'' \<noteq> ''_schema'' \<and> ''a'' \<noteq> ''extra_fields'' \<and>
      map_of (extra_fields (DynamicModel_setattr shadowing_instance ''a'' (PInt 7))) ''a'' = Some (PInt 7)) \<and>
   (''id'' \<in> set (get_extra_fields_names shadowing_instance) \<and>
    ''id'' \<in> set (meta_fields shadowing_instance) \<and> ''id'' \<noteq> ''extra_fields'' \<and>
      extra_fields (DynamicModel_setattr shadowing_instance ''id'' (PInt 7)) =
        extra_fields shadowing_instance \<and>
      map_of (attrs (DynamicModel_setattr shadowing_instance ''id'' (PInt 7))) ''id'' = Some (PInt 7))"
proof -
  have names: "set (get_extra_fields_names shadowing_instance) = {''a'', ''id''}"
    by (simp add: get_extra_fields_names_eq shadowing_instance_def field_a_def field_id_def)
  have meta: "set (meta_fields shadowing_instance) = {''id'', ''extra_fields''}"
    by (simp add: shadowing_instance_def)
  have h1: "''zz'' \<notin> set (get_extra_fields_names shadowing_instance) \<and> ''zz'' \<noteq> ''extra_fields''"
    unfolding names by simp
  have h2: "''a'' \<in> set (get_extra_fields_names shadowing_instance) \<and>
    ''a'' \<notin> set (meta_fields shadowing_instance) \<and> ''a'' \<noteq> ''_schema'' \<and> ''a'' \<noteq> ''extra_fields''"
    unfolding names meta by simp
  have h3: "''id'' \<in> set (get_extra_fields_names shadowing_instance) \<and>
    (''id'' \<in> set (meta_fields shadowing_instance) \<or> ''id'' = ''_schema'') \<and> ''id'' \<noteq> ''extra_fields''"
    unfolding names meta by simp
  note r1 = setattr_store_effect [of "''zz''" shadowing_instance "PInt 7",
      THEN conjunct1, rule_format, OF h1]
  note r2 = setattr_store_effect [of "''a''" shadowing_instance "PInt 7",
      THEN conjunct2, THEN conjunct1, rule_format, OF h2, THEN conjunct2, THEN conjunct1]
  note r3 = setattr_store_effect [of "''id''" shadowing_instance "PInt 7",
      THEN conjunct2, THEN conjunct2, THEN conjunct1, rule_format, OF h3]
  from h3 have h3': "''id'' \<in> set (get_extra_fields_names shadowing_instance) \<and>
    ''id'' \<in> set (meta_fields shadowing_instance) \<and> ''id'' \<noteq> ''extra_fields''"
    unfolding meta by simp
  from h1 r1 have c1: "''zz'' \<notin> set (get_extra_fields_names shadowing_instance) \<and> ''zz'' \<noteq> ''extra_fields'' \<and>
      extra_fields (DynamicModel_setattr shadowing_instance ''zz'' (PInt 7)) =
        extra_fields shadowing_instance \<and>
      map_of (attrs (DynamicModel_setattr shadowing_instance ''zz'' (PInt 7))) ''zz'' = Some (PInt 7)"
    by (elim conjE, intro conjI) assumption+
  from h2 r2 have c2: "''a'' \<in> set (get_extra_fields_names shadowing_instance) \<and>
    ''a'' \<notin> set (meta_fields shadowing_instance) \<and> ''a'' \<noteq> ''_schema'' \<and> ''a'' \<noteq> ''extra_fields'' \<and>
      map_of (extra_fields (DynamicModel_setattr shadowing_instance ''a'' (PInt 7))) ''a'' = Some (PInt 7)"
    by (elim conjE, intro conjI) assumption+
  from h3' r3 have c3: "''id'' \<in> set (get_extra_fields_names shadowing_instance) \<and>
    ''id'' \<in> set (meta_fields shadowing_instance) \<and> ''id'' \<noteq> ''extra_fields'' \<and>
      extra_fields (DynamicModel_setattr shadowing_instance ''id'' (PInt 7)) =
        extra_fields shadowing_instance \<and>
      map_of (attrs (DynamicModel_setattr shadowing_instance ''id'' (PInt 7))) ''id'' = Some (PInt 7)"
    by (elim conjE, intro conjI) assumption+
  show ?thesis by (rule conjI [OF c1 conjI [OF c2 c3]])
qed

section \<open>Schema field rows\<close>

text \<open>
  Claim C10 (remove_field is total on names). \<open>remove_field\<close> is a total function: it
  never raises. The fields of the schema afterwards are those whose name differs from the
  given one, the fields of every other schema are untouched, and for a name that the schema
  does not declare the table is unchanged.
\<close>

theorem remove_field_effect:
  "fields_all (remove_field db schema fname) schema =
     filter (\<lambda>r. name r \<noteq> fname) (fields_all db schema) \<and>
   (s \<noteq> schema \<longrightarrow> fields_all (remove_field db schema fname) s = fields_all db s) \<and>
   (fname \<notin> set (map name (fields_all db schema)) \<longrightarrow> remove_field db schema fname = db)"
proof (intro conjI impI)
  show "fields_all (remove_field db schema fname) schema =
     filter (\<lambda>r. name r \<noteq> fname) (fields_all db schema)"
    by (induction db) (auto simp: fields_all_def remove_field_def)
next
  assume "s \<noteq> schema"
  then show "fields_all (remove_field db schema fname) s = fields_all db s"
    by (induction db) (auto simp: fields_all_def remove_field_def)
next
  assume "fname \<notin> set (map name (fields_all db schema))"
  then have "\<forall>r \<in> set db. \<not> (schema_id r = schema \<and> name r = fname)"
    by (auto simp: fields_all_def)
  then show "remove_field db schema fname = db"
    unfolding remove_field_def by (simp add: filter_id_conv)
qed

theorem remove_field_effect_witness:
  "fields_all (remove_field [field_a, field_b] 1 ''a'') 1 = [field_b] \<and>
   (2::int) \<noteq> 1 \<and> fields_all (remove_field [field_a, field_b] 1 ''a'') 2 = [] \<and>
   ''zz'' \<notin> set (map name (fields_all [field_a, field_b] 1)) \<and>
   remove_field [field_a, field_b] 1 ''zz'' = [field_a, field_b]"
proof -
  have all: "fields_all [field_a, field_b] 1 = [field_a, field_b]"
    "fields_all [field_a, field_b] 2 = []"
    by (simp_all add: fields_all_def field_a_def field_b_def)
  have names: "name field_a = ''a''" "name field_b = ''b''"
    by (simp_all add: field_a_def field_b_def)
  have h: "''zz'' \<notin> set (map name (fields_all [field_a, field_b] 1))"
    unfolding all by (simp add: names)
  have ne: "(2::int) \<noteq> 1" by simp
  note r = remove_field_effect [of "[field_a, field_b]" 1 "''a''" 2]
  note r1 = r [THEN conjunct1]
  note r2 = r [THEN conjunct2, THEN conjunct1, rule_format, OF ne]
  note r3 = remove_field_effect [of "[field_a, field_b]" 1 "''zz''" 2,
      THEN conjunct2, THEN conjunct2, rule_format, OF h]
  have c1: "fields_all (remove_field [field_a, field_b] 1 ''a'') 1 = [field_b]"
    unfolding r1 all by (simp add: names)
  have c2: "fields_all (remove_field [field_a, field_b] 1 ''a'') 2 = []"
    unfolding r2 all ..
  show ?thesis
    by (rule conjI [OF c1 conjI [OF ne conjI [OF c2 conjI [OF h r3]]]])
qed

lemma compare_fields_ok:
  "compare_fields old_model self fns = Inr () \<longleftrightarrow>
   (\<forall>fn \<in> set fns. dict_get (instance_dict old_model) fn = dict_get (instance_dict self) fn)"
  by (induction fns) auto

lemma compare_fields_error:
  "compare_fields old_model self fns = Inl e \<Longrightarrow> e = ValidationError"
  by (induction fns) (auto split: if_splits)

lemma clean_persisted:
  assumes "pk self = Some i" "i \<noteq> 0" "objects_get db i = Inr old_model"
  shows "clean db self =
     (if pk old_model = Some i \<and> name old_model = name self \<and>
         field_type old_model = field_type self \<and> required old_model = required self
      then Inr () else Inl ValidationError)"
proof -
  let ?fns = "remove1 ''verbose_name'' meta_field_names"
  have fns: "?fns = [''id'', ''schema'', ''name'', ''field_type'', ''required'']"
    by (simp add: meta_field_names_def)
  have eq: "(\<forall>fn \<in> set ?fns. dict_get (instance_dict old_model) fn = dict_get (instance_dict self) fn)
     \<longleftrightarrow> (pk old_model = Some i \<and> name old_model = name self \<and>
         field_type old_model = field_type self \<and> required old_model = required self)"
    unfolding fns using assms(1)
    by (auto simp: dict_get_def instance_dict_def split: option.splits)
  have c: "clean db self = compare_fields old_model self ?fns"
    using assms by (simp add: clean_def)
  have ok: "compare_fields old_model self ?fns = Inr () \<longleftrightarrow>
     (pk old_model = Some i \<and> name old_model = name self \<and>
         field_type old_model = field_type self \<and> required old_model = required self)"
    using compare_fields_ok [of old_model self ?fns] eq by blast
  show ?thesis
  proof (cases "compare_fields old_model self ?fns")
    case (Inl e)
    then have "e = ValidationError" by (rule compare_fields_error)
    with Inl ok show ?thesis unfolding c by auto
  next
    case (Inr u)
    with ok show ?thesis unfolding c by auto
  qed
qed

text \<open>Frozen columns: a save that changes name, field type or requiredness is rejected.\<close>

lemma save_rejects_frozen_change:
  assumes "pk self = Some i" "i \<noteq> 0" "objects_get db i = Inr old_model"
    and "name self \<noteq> name old_model \<or> field_type self \<noteq> field_type old_model \<or>
         required self \<noteq> required old_model"
  shows "DynamicSchemaField_save db auto_pk self force_insert = Inl ValidationError"
  using assms(4) by (auto simp: DynamicSchemaField_save_def clean_persisted [OF assms(1-3)])

text \<open>A save that changes the label only is accepted and rewrites the stored row.\<close>

lemma save_accepts_verbose_name_change:
  assumes "pk old_model = Some i" "i \<noteq> 0" "objects_get db i = Inr old_model"
    and unique: "filter (\<lambda>r. pk r \<noteq> Some i \<and> schema_id r = schema_id old_model \<and>
                   name r = name old_model) db = []"
  shows "DynamicSchemaField_save db auto_pk (old_model\<lparr>verbose_name := vn\<rparr>) False =
           Inr (map (\<lambda>r. if pk r = Some i then old_model\<lparr>verbose_name := vn\<rparr> else r) db,
                old_model\<lparr>verbose_name := vn\<rparr>)"
proof -
  let ?self = "old_model\<lparr>verbose_name := vn\<rparr>"
  have "clean db ?self = Inr ()"
    using clean_persisted [of ?self i db old_model] assms(1-3) by simp
  moreover have "filter (\<lambda>r. pk r = Some i) db \<noteq> []"
    using assms(3) by (auto simp: objects_get_def split: list.splits)
  ultimately show ?thesis
    using unique assms(1) by (simp add: DynamicSchemaField_save_def model_save_def)
qed

text \<open>
  Claim C4 (field immutability) at a failing input. Field \<open>a\<close> is persisted with key 1 in
  schema 1. Saving it with its schema changed to 2, an attribute other than
  \<open>verbose_name\<close>, is accepted and rewrites the stored row: \<open>clean\<close> looks the foreign
  key up under \<open>schema\<close>, which is missing from both instance dictionaries. The save is an
  update, so the next auto-increment key, 3, is not used.
\<close>

theorem save_changed_schema_accepted:
  "objects_get [field_a, field_b] 1 = Inr field_a \<and>
   schema_id (field_a\<lparr>schema_id := 2\<rparr>) \<noteq> schema_id field_a \<and>
   DynamicSchemaField_save [field_a, field_b] 3 (field_a\<lparr>schema_id := 2\<rparr>) False =
     Inr ([field_a\<lparr>schema_id := 2\<rparr>, field_b], field_a\<lparr>schema_id := 2\<rparr>)"
  by code_simp

text \<open>
  Claim C6 (invalid-name rejection) at a failing input. The name \<open>bad name\<close> is refused
  by the validator declared on the column, yet \<open>add_field\<close> on the empty table, whose
  auto-increment hands out key 1, stores a field with that name: \<open>save\<close> runs \<open>clean\<close>
  only, never the validators.
\<close>

theorem add_field_accepts_invalid_name:
  "name_validator ''bad name'' = Inl ValidationError \<and>
   add_field [] 1 1 ''bad name'' ''IntegerField'' =
     Inr ([\<lparr>pk = Some 1, schema_id = 1, name = ''bad name'', verbose_name = None,
            field_type = ''IntegerField'', required = True\<rparr>],
          \<lparr>pk = Some 1, schema_id = 1, name = ''bad name'', verbose_name = None,
            field_type = ''IntegerField'', required = True\<rparr>)"
  by code_simp

text \<open>The uniqueness of (schema, name) is enforced by the table.\<close>

lemma add_field_duplicate:
  "add_field [field_a, field_b] 3 1 ''a'' ''CharField'' = Inl IntegrityError"
  by code_simp

end
